theory Spec2Isabelle
  imports Main "HOL-Library.Word"
begin

unbundle bit_operations_syntax

section \<open>Physical memory management (kern/mem.c)\<close>

subsection \<open>Data model\<close>

text \<open>
  A pointer to a page descriptor is either \<open>NULL\<close> or the address of an element of
  the descriptor array; it is modelled by the index of that element, \<open>None\<close> being
  \<open>NULL\<close>. The array itself is a store from indices to descriptors; \<open>mem_npage\<close>
  is its length, and the range checks of the source are the ones that consult it.
\<close>

type_synonym pageinfo_ptr = "nat option"

text \<open>
  Modelled from the spec: the declaration of \<open>struct pageinfo\<close> (kern/mem.h) is not
  among the sources. The fields are the ones of the spec's data model: the reference
  count is an integer, the home is a remote reference (the \<open>uint32_t rr\<close> that
  \<open>mem_rrtrack\<close> stores into it), \<open>shared\<close> is a flag.
\<close>

record pageinfo =
  free_next :: pageinfo_ptr
  refcount :: int
  home :: "32 word"
  shared :: bool
  homelist :: pageinfo_ptr
  homenext :: pageinfo_ptr

text \<open>The globals of kern/mem.c.\<close>

record mem_state =
  mem_max :: nat
  mem_npage :: nat
  mem_pageinfo :: "nat \<Rightarrow> pageinfo"
  mem_freelist :: pageinfo_ptr

text \<open>
  What stops a call short of its return: a store through a null pointer, and a failed
  \<open>assert\<close> (which panics).
\<close>

datatype error = NullDeref | AssertFail

text \<open>A store to fields of \<open>mem_pageinfo[i]\<close>.\<close>

definition pi_store :: "nat \<Rightarrow> (pageinfo \<Rightarrow> pageinfo) \<Rightarrow> mem_state \<Rightarrow> mem_state" where
  "pi_store i f s = s\<lparr>mem_pageinfo := (mem_pageinfo s)(i := f (mem_pageinfo s i))\<rparr>"

subsection \<open>The free-list allocator\<close>

text \<open>
  \<open>mem_alloc\<close>, lines 98 to 110. The model is sequential, so the spinlock calls have
  no effect on it. The test \<open>p != NULL\<close> guards the unlinking only: the two stores
  \<open>p->home = 0\<close> and \<open>p->shared = 0\<close> follow it unguarded, and with \<open>p == NULL\<close>
  they go through the null pointer.
\<close>

definition mem_alloc :: "mem_state \<Rightarrow> error + (mem_state \<times> pageinfo_ptr)" where
  "mem_alloc s =
     (let p = mem_freelist s;
          s1 = (case p of
                  Some i \<Rightarrow> s\<lparr>mem_freelist := free_next (mem_pageinfo s i)\<rparr>
                | None \<Rightarrow> s)
      in case p of
           None \<Rightarrow> Inl NullDeref
         | Some i \<Rightarrow> Inr (pi_store i (\<lambda>d. d\<lparr>home := 0, shared := False\<rparr>) s1, p))"

text \<open>\<open>mem_free\<close>, lines 116 to 123.\<close>

definition mem_free :: "pageinfo_ptr \<Rightarrow> mem_state \<Rightarrow> error + mem_state" where
  "mem_free pi s =
     (case pi of
        None \<Rightarrow> Inl NullDeref
      | Some i \<Rightarrow>
          Inr ((pi_store i (\<lambda>d. d\<lparr>free_next := mem_freelist s\<rparr>) s)\<lparr>mem_freelist := Some i\<rparr>))"

subsection \<open>Initialisation\<close>

text \<open>
  The constants and symbols that \<open>mem_init\<close> and the tracker take from headers and
  from the linker, none of which is among the sources: they are parameters of the
  model. Addresses and sizes are natural numbers, the 32-bit wrap-around written out
  where the code computes with them.
\<close>

record kern_config =
  nvram_baselo :: nat              \<comment> \<open>\<open>nvram_read16(NVRAM_BASELO)\<close>, in kilobytes\<close>
  MEM_EXT :: "32 word"             \<comment> \<open>start of extended memory\<close>
  sym_start :: nat                 \<comment> \<open>address of the linker symbol \<open>start\<close>\<close>
  sym_end :: nat                   \<comment> \<open>address of the linker symbol \<open>end\<close>\<close>
  pmap_zero :: nat                 \<comment> \<open>address of the all-zero page\<close>
  sizeof_pageinfo :: nat           \<comment> \<open>\<open>sizeof(pageinfo)\<close>\<close>
  NET_MAXNODES :: nat
  RRNODE :: "32 word \<Rightarrow> 32 word"   \<comment> \<open>node number of a remote reference\<close>
  RRADDR :: "32 word \<Rightarrow> 32 word"   \<comment> \<open>physical address of a remote reference\<close>

text \<open>
  \<open>PAGESIZE\<close> (inc/mmu.h) is not among the sources either; \<open>mem_init\<close> writes the
  literal 4096 where it converts the same addresses to page numbers (lines 73 and 74),
  which gives its value.
\<close>

definition PAGESIZE :: nat where
  "PAGESIZE = 4096"



text \<open>
  \<open>pageinfo **freetail\<close> points at \<open>mem_freelist\<close> or at the \<open>free_next\<close> field of
  a descriptor.
\<close>

datatype tailref = Freelist_head | Free_next_of nat

definition tail_store :: "tailref \<Rightarrow> pageinfo_ptr \<Rightarrow> mem_state \<Rightarrow> mem_state" where
  "tail_store freetail v s =
     (case freetail of
        Freelist_head \<Rightarrow> s\<lparr>mem_freelist := v\<rparr>
      | Free_next_of j \<Rightarrow> pi_store j (\<lambda>d. d\<lparr>free_next := v\<rparr>) s)"

definition zero_pageinfo :: pageinfo where
  "zero_pageinfo = \<lparr>free_next = None, refcount = 0, home = 0, shared = False,
                     homelist = None, homenext = None\<rparr>"








subsection \<open>The remote-reference tracker\<close>

text \<open>
  Modelled from the spec: \<open>mem_phys2pi\<close> and \<open>mem_ptr2pi\<close> (kern/mem.h) are absent.
  The descriptor of a physical address is the one at the same frame number.
\<close>

definition mem_phys2pi :: "nat \<Rightarrow> pageinfo_ptr" where
  "mem_phys2pi phys = Some (phys div PAGESIZE)"

text \<open>
  Modelled from the spec: \<open>mem_incref\<close> (kern/mem.h) is absent. It increments the
  reference count of the descriptor.
\<close>

definition mem_incref :: "nat \<Rightarrow> mem_state \<Rightarrow> mem_state" where
  "mem_incref i s = pi_store i (\<lambda>d. d\<lparr>refcount := refcount d + 1\<rparr>) s"

text \<open>
  The order of two descriptor pointers, by address: the null pointer lies below the
  array, and the elements of the array are ordered by index.
\<close>

definition ptr_less :: "pageinfo_ptr \<Rightarrow> pageinfo_ptr \<Rightarrow> bool" where
  "ptr_less p q =
     (case q of
        None \<Rightarrow> False
      | Some j \<Rightarrow> (case p of None \<Rightarrow> True | Some i \<Rightarrow> i < j))"

text \<open>
  The range check \<open>pi > &mem_pageinfo[1] && pi < &mem_pageinfo[mem_npage]\<close> of lines
  130, 148 and 179.
\<close>

definition pi_in_array :: "mem_state \<Rightarrow> pageinfo_ptr \<Rightarrow> bool" where
  "pi_in_array s pi = (ptr_less (Some 1) pi \<and> ptr_less pi (Some (mem_npage s)))"

text \<open>
  The three assertions at the head of \<open>mem_rrtrack\<close>, lines 130 to 132: in the array
  above descriptor 1, not the zero page, not in the kernel image.
\<close>

definition pi_trackable :: "kern_config \<Rightarrow> mem_state \<Rightarrow> pageinfo_ptr \<Rightarrow> bool" where
  "pi_trackable cfg s pi =
     (pi_in_array s pi \<and>
      pi \<noteq> mem_phys2pi (pmap_zero cfg) \<and>
      (ptr_less pi (mem_phys2pi (sym_start cfg)) \<or>
       ptr_less (mem_phys2pi (sym_end cfg - 1)) pi))"

text \<open>The assertion on the node number, lines 137-138 and 175-176.\<close>

definition rr_node_ok :: "kern_config \<Rightarrow> 32 word \<Rightarrow> bool" where
  "rr_node_ok cfg rr =
     (let node = (ucast (RRNODE cfg rr) :: 8 word)
      in 0 < unat node \<and> unat node \<le> NET_MAXNODES cfg)"

text \<open>
  The scan of lines 152 to 155. It follows \<open>homenext\<close> until it meets a null pointer
  or an assertion fails; on a chain that closes on itself it does not return, which is
  the value \<open>None\<close>.
\<close>

partial_function (option) rrtrack_scan ::
  "kern_config \<Rightarrow> mem_state \<Rightarrow> 32 word \<Rightarrow> 32 word \<Rightarrow> pageinfo_ptr \<Rightarrow> (error + unit) option" where
  "rrtrack_scan cfg s rr addr spi =
     (case spi of
        None \<Rightarrow> Some (Inr ())
      | Some i \<Rightarrow>
          if RRADDR cfg (home (mem_pageinfo s i)) \<noteq> addr then Some (Inl AssertFail)
          else if home (mem_pageinfo s i) = rr then Some (Inl AssertFail)
          else rrtrack_scan cfg s rr addr (homenext (mem_pageinfo s i)))"

text \<open>\<open>mem_rrtrack\<close>, lines 128 to 163.\<close>

definition mem_rrtrack ::
  "kern_config \<Rightarrow> 32 word \<Rightarrow> pageinfo_ptr \<Rightarrow> mem_state \<Rightarrow> (error + mem_state) option" where
  "mem_rrtrack cfg rr pi s =
     (if \<not> pi_trackable cfg s pi then Some (Inl AssertFail)
      else if \<not> rr_node_ok cfg rr then Some (Inl AssertFail)
      else
        let addr = RRADDR cfg rr;
            hpi = mem_phys2pi (unat addr)
        in if \<not> pi_in_array s hpi then Some (Inl AssertFail)
           else
             case (pi, hpi) of
               (Some p, Some h) \<Rightarrow>
                 (case rrtrack_scan cfg s rr addr (homelist (mem_pageinfo s h)) of
                    None \<Rightarrow> None
                  | Some (Inl e) \<Rightarrow> Some (Inl e)
                  | Some (Inr _) \<Rightarrow>
                      let s1 = pi_store p (\<lambda>d. d\<lparr>home := rr\<rparr>) s;
                          s2 = pi_store p (\<lambda>d. d\<lparr>homenext := homelist (mem_pageinfo s1 h)\<rparr>) s1;
                          s3 = pi_store h (\<lambda>d. d\<lparr>homelist := pi\<rparr>) s2
                      in Some (Inr s3))
             | _ \<Rightarrow> Some (Inl NullDeref))"

text \<open>
  The loop of lines 182 to 190; on a hit it takes the reference and leaves the loop
  with the pointer, at the end of the chain it leaves with null.
\<close>

partial_function (option) rrlookup_scan ::
  "kern_config \<Rightarrow> 32 word \<Rightarrow> 32 word \<Rightarrow> mem_state \<Rightarrow> pageinfo_ptr \<Rightarrow>
     (error + mem_state \<times> pageinfo_ptr) option" where
  "rrlookup_scan cfg rr addr s pi =
     (case pi of
        None \<Rightarrow> Some (Inr (s, None))
      | Some i \<Rightarrow>
          if RRADDR cfg (home (mem_pageinfo s i)) \<noteq> addr then Some (Inl AssertFail)
          else if home (mem_pageinfo s i) = rr then Some (Inr (mem_incref i s, Some i))
          else rrlookup_scan cfg rr addr s (homenext (mem_pageinfo s i)))"

text \<open>\<open>mem_rrlookup\<close>, lines 169 to 194.\<close>

definition mem_rrlookup ::
  "kern_config \<Rightarrow> 32 word \<Rightarrow> mem_state \<Rightarrow> (error + mem_state \<times> pageinfo_ptr) option" where
  "mem_rrlookup cfg rr s =
     (if \<not> rr_node_ok cfg rr then Some (Inl AssertFail)
      else
        let addr = RRADDR cfg rr;
            pi = mem_phys2pi (unat addr)
        in if \<not> pi_in_array s pi then Some (Inl AssertFail)
           else
             case pi of
               Some h \<Rightarrow> rrlookup_scan cfg rr addr s (homelist (mem_pageinfo s h))
             | None \<Rightarrow> Some (Inl NullDeref))"

subsection \<open>Reading the lists of the store\<close>

text \<open>
  \<open>chain nxt p xs\<close>: following the link \<open>nxt\<close> from the pointer \<open>p\<close> visits the
  descriptors \<open>xs\<close>, in this order, and then meets the null pointer.
\<close>

primrec chain :: "(nat \<Rightarrow> pageinfo_ptr) \<Rightarrow> pageinfo_ptr \<Rightarrow> nat list \<Rightarrow> bool" where
  "chain nxt p [] = (p = None)"
| "chain nxt p (x # xs) = (p = Some x \<and> chain nxt (nxt x) xs)"






text \<open>The bucket of a remote reference: the descriptor at the frame of its address.\<close>

definition bucket_of :: "kern_config \<Rightarrow> 32 word \<Rightarrow> nat" where
  "bucket_of cfg rr = unat (RRADDR cfg rr) div PAGESIZE"

text \<open>
  \<open>bucket_without cfg s rr xs\<close>: the bucket of \<open>rr\<close> is the null-terminated list
  \<open>xs\<close>, every entry of it has its home at the address of \<open>rr\<close> (what the scans
  assert at lines 153 and 183), and none has \<open>rr\<close> itself as its home.
\<close>

definition bucket_without :: "kern_config \<Rightarrow> mem_state \<Rightarrow> 32 word \<Rightarrow> nat list \<Rightarrow> bool" where
  "bucket_without cfg s rr xs =
     (chain (\<lambda>i. homenext (mem_pageinfo s i)) (homelist (mem_pageinfo s (bucket_of cfg rr))) xs \<and>
      list_all (\<lambda>x. RRADDR cfg (home (mem_pageinfo s x)) = RRADDR cfg rr \<and>
                     home (mem_pageinfo s x) \<noteq> rr) xs)"

text \<open>The store that \<open>mem_free\<close> leaves, written out for the proofs.\<close>

definition freed :: "nat \<Rightarrow> pageinfo_ptr \<Rightarrow> mem_state \<Rightarrow> mem_state" where
  "freed d fl s = (pi_store d (\<lambda>x. x\<lparr>free_next := fl\<rparr>) s)\<lparr>mem_freelist := Some d\<rparr>"

subsection \<open>Stores that tracking leads to\<close>

text \<open>
  The address of a remote reference is the address of a page: two references with
  the same bucket have the same address.
\<close>

definition rraddr_aligned :: "kern_config \<Rightarrow> bool" where
  "rraddr_aligned cfg = (\<forall>rr. unat (RRADDR cfg rr) mod PAGESIZE = 0)"

text \<open>
  \<open>tracked_from cfg T P s\<close>: the store \<open>s\<close> comes from a store with empty buckets
  by calls of \<open>mem_rrtrack\<close> and \<open>mem_rrlookup\<close> that return; \<open>T\<close> is the set
  of the references tracked on the way and \<open>P\<close> the set of the descriptors they were
  attached to, each of them tracked once. The invariant of these stores: every bucket
  is a null-terminated list of descriptors of \<open>P\<close> whose homes are references of
  \<open>T\<close> that belong to this bucket.
\<close>

definition bucket_list :: "mem_state \<Rightarrow> nat \<Rightarrow> nat list \<Rightarrow> bool" where
  "bucket_list s b xs = chain (\<lambda>i. homenext (mem_pageinfo s i)) (homelist (mem_pageinfo s b)) xs"

definition tracker_inv :: "kern_config \<Rightarrow> 32 word set \<Rightarrow> nat set \<Rightarrow> mem_state \<Rightarrow> bool" where
  "tracker_inv cfg T P s =
     (\<forall>b < mem_npage s. \<exists>xs. bucket_list s b xs \<and> set xs \<subseteq> P \<and>
        (\<forall>x \<in> set xs. home (mem_pageinfo s x) \<in> T \<and> bucket_of cfg (home (mem_pageinfo s x)) = b))"

inductive tracked_from :: "kern_config \<Rightarrow> 32 word set \<Rightarrow> nat set \<Rightarrow> mem_state \<Rightarrow> bool"
  for cfg :: kern_config where
  empty: "(\<And>b. b < mem_npage s \<Longrightarrow> homelist (mem_pageinfo s b) = None) \<Longrightarrow> tracked_from cfg {} {} s"
| track: "tracked_from cfg T P s \<Longrightarrow> p \<notin> P \<Longrightarrow> mem_rrtrack cfg r (Some p) s = Some (Inr s') \<Longrightarrow>
          tracked_from cfg (insert r T) (insert p P) s'"
| lookup: "tracked_from cfg T P s \<Longrightarrow> mem_rrlookup cfg r s = Some (Inr (s', q)) \<Longrightarrow>
           tracked_from cfg T P s'"

subsection \<open>The free list that \<open>mem_init\<close> threads\<close>

text \<open>What \<open>*freetail\<close> holds.\<close>

definition tail_deref :: "mem_state \<Rightarrow> tailref \<Rightarrow> pageinfo_ptr" where
  "tail_deref s ft =
     (case ft of Freelist_head \<Rightarrow> mem_freelist s | Free_next_of j \<Rightarrow> free_next (mem_pageinfo s j))"




subsection \<open>Reserved frames\<close>



subsection \<open>Reachable stores\<close>




section \<open>Processor trap handling (kern/trap.c)\<close>

subsection \<open>The trap vector table\<close>

text \<open>
  The trap and interrupt numbers come from inc/trap.h and the device headers, which
  are not among the sources: the numbering is a parameter of the model.
\<close>

datatype trap_name =
  T_DIVIDE | T_DEBUG | T_NMI | T_BRKPT | T_OFLOW | T_BOUND | T_ILLOP | T_DEVICE
| T_DBLFLT | T_TSS | T_SEGNP | T_STACK | T_GPFLT | T_PGFLT | T_FPERR | T_ALIGN
| T_MCHK | T_SIMD | T_SECEV | T_IRQ0 | T_SYSCALL | T_LTIMER

datatype irq_name = IRQ_KBD | IRQ_SERIAL | IRQ_SPURIOUS

record trap_numbers =
  trapnum :: "trap_name \<Rightarrow> nat"
  irqnum :: "irq_name \<Rightarrow> nat"

datatype segment = CPU_GDT_KCODE

text \<open>
  Modelled from the spec: \<open>struct gatedesc\<close> and the macro \<open>SETGATE\<close> (inc/mmu.h)
  are absent. A live entry records the handler entry point (here the name of the
  symbol), the code segment, whether the gate is trap-style or interrupt-style, and
  the privilege level required to invoke it. An entry of the static table that
  \<open>SETGATE\<close> has not written is all zero, not present: \<open>None\<close>.
\<close>

record gatedesc =
  gd_off :: string
  gd_ss :: segment
  gd_istrap :: bool
  gd_dpl :: nat

type_synonym idt_table = "nat \<rightharpoonup> gatedesc"

definition SETGATE ::
  "nat \<Rightarrow> bool \<Rightarrow> segment \<Rightarrow> string \<Rightarrow> nat \<Rightarrow> idt_table \<Rightarrow> idt_table" where
  "SETGATE i istrap sel off dpl idt =
     idt(i \<mapsto> \<lparr>gd_off = off, gd_ss = sel, gd_istrap = istrap, gd_dpl = dpl\<rparr>)"

text \<open>
  The \<open>SETGATE\<close> statements of \<open>trap_init_idt\<close>, lines 55 to 95, in the order of
  the source: index, handler symbol, privilege level. All of them pass 0 for
  \<open>istrap\<close> and \<open>CPU_GDT_KCODE\<close> for the segment. (Line 62 installs \<open>tdivide\<close>
  for \<open>T_DEVICE\<close>.)
\<close>

definition idt_gates :: "trap_numbers \<Rightarrow> (nat \<times> string \<times> nat) list" where
  "idt_gates n =
     [(trapnum n T_DIVIDE, ''tdivide'', 0),
      (trapnum n T_DEBUG, ''tdebug'', 0),
      (trapnum n T_NMI, ''tnmi'', 0),
      (trapnum n T_BRKPT, ''tbrkpt'', 3),
      (trapnum n T_OFLOW, ''toflow'', 3),
      (trapnum n T_BOUND, ''tbound'', 0),
      (trapnum n T_ILLOP, ''tillop'', 0),
      (trapnum n T_DEVICE, ''tdivide'', 0),
      (trapnum n T_DBLFLT, ''tdblflt'', 0),
      (trapnum n T_TSS, ''ttss'', 0),
      (trapnum n T_SEGNP, ''tsegnp'', 0),
      (trapnum n T_STACK, ''tstack'', 0),
      (trapnum n T_GPFLT, ''tgpflt'', 0),
      (trapnum n T_PGFLT, ''tpgflt'', 0),
      (trapnum n T_FPERR, ''tfperr'', 0),
      (trapnum n T_ALIGN, ''talign'', 0),
      (trapnum n T_MCHK, ''tmchk'', 0),
      (trapnum n T_SIMD, ''tsimd'', 0),
      (trapnum n T_SECEV, ''tsecev'', 0),
      (trapnum n T_IRQ0, ''tirq0'', 0),
      (trapnum n T_IRQ0 + irqnum n IRQ_KBD, ''tirqkbd'', 0),
      (trapnum n T_IRQ0 + irqnum n IRQ_SERIAL, ''tirqser'', 0),
      (trapnum n T_IRQ0 + irqnum n IRQ_SPURIOUS, ''tirqspur'', 0),
      (trapnum n T_IRQ0 + 2, ''tirq2'', 0),
      (trapnum n T_IRQ0 + 3, ''tirq3'', 0),
      (trapnum n T_IRQ0 + 5, ''tirq5'', 0),
      (trapnum n T_IRQ0 + 6, ''tirq6'', 0),
      (trapnum n T_IRQ0 + 8, ''tirq8'', 0),
      (trapnum n T_IRQ0 + 9, ''tirq9'', 0),
      (trapnum n T_IRQ0 + 10, ''tirq10'', 0),
      (trapnum n T_IRQ0 + 11, ''tirq11'', 0),
      (trapnum n T_IRQ0 + 12, ''tirq12'', 0),
      (trapnum n T_IRQ0 + 13, ''tirq13'', 0),
      (trapnum n T_IRQ0 + 14, ''tirq14'', 0),
      (trapnum n T_IRQ0 + 15, ''tirq15'', 0),
      (trapnum n T_SYSCALL, ''tsystem'', 3),
      (trapnum n T_LTIMER, ''tltimer'', 0)]"

definition trap_init_idt :: "trap_numbers \<Rightarrow> idt_table \<Rightarrow> idt_table" where
  "trap_init_idt n idt =
     fold (\<lambda>(i, off, dpl). SETGATE i False CPU_GDT_KCODE off dpl) (idt_gates n) idt"

text \<open>The static table before \<open>trap_init_idt\<close>: no entry written.\<close>

definition idt0 :: idt_table where
  "idt0 = Map.empty"

subsection \<open>The trap dispatcher\<close>

text \<open>The fields of the trap frame that \<open>trap\<close> reads or prints.\<close>

record trapframe =
  trapno :: "32 word"
  err :: "32 word"
  eip :: "32 word"
  cs :: "16 word"

text \<open>
  The functions that \<open>trap\<close> calls, all of them outside this file. The behaviour of
  \<open>trap\<close> is the sequence of these calls, in the order in which it makes them.
\<close>

datatype call =
  Pmap_pagefault | Recover | Syscall | Net_tick | Lapic_eoi | Proc_yield | Trap_return
| Kbd_intr | Serial_intr | Cprintf_spurious | E100_intr | Cprintf_wrong_node
| Net_migrate "32 word" | Proc_ret | Spinlock_release_cons | Trap_print | Panic bool

text \<open>
  What \<open>trap\<close> reads besides the trap frame: the recovery hook of the current
  processor, the home of the current process, the number of this node, the interrupt
  line of the network device, the state of the console lock. Some of the functions it
  calls may resume the interrupted code or switch to another process instead of
  coming back to \<open>trap\<close>: the page-fault handler, the recovery hook, \<open>syscall\<close>,
  \<open>proc_yield\<close>, \<open>trap_return\<close>, \<open>net_migrate\<close> and \<open>proc_ret\<close>. Whether they
  do is not decided in this file, and \<open>returns\<close> says so for each. The device
  handlers, the interrupt acknowledgement and the console output come back; \<open>panic\<close>
  never does.
\<close>

record trap_env =
  recover :: bool
  curr_home :: "32 word"
  net_node :: nat
  e100_irq :: "8 word"
  cons_lock_holding :: bool
  returns :: "call \<Rightarrow> bool"

text \<open>A call that may not come back, and what follows it if it does.\<close>

definition do_call :: "trap_env \<Rightarrow> call \<Rightarrow> call list \<Rightarrow> call list" where
  "do_call env c rest = c # (if returns env c then rest else [])"

definition user_mode :: "trapframe \<Rightarrow> bool" where
  "user_mode tf = (cs tf AND 3 \<noteq> 0)"

text \<open>Lines 247 to 254: the fatal end of \<open>trap\<close>.\<close>

definition trap_fatal :: "trap_env \<Rightarrow> trapframe \<Rightarrow> call list" where
  "trap_fatal env tf =
     (if cons_lock_holding env
      then [Spinlock_release_cons, Trap_print, Panic (user_mode tf)]
      else [Trap_print, Panic (user_mode tf)])"

text \<open>Lines 236 to 245: a trap from user mode that nothing above has taken.\<close>

definition trap_reflect :: "kern_config \<Rightarrow> trap_env \<Rightarrow> trapframe \<Rightarrow> call list" where
  "trap_reflect cfg env tf =
     (if user_mode tf
      then
        (if unat (RRNODE cfg (curr_home env)) \<noteq> net_node env
         then Cprintf_wrong_node #
                do_call env (Net_migrate (RRNODE cfg (curr_home env)))
                  (do_call env Proc_ret (trap_fatal env tf))
         else do_call env Proc_ret (trap_fatal env tf))
      else trap_fatal env tf)"

text \<open>Lines 230 to 234: the interrupt of the network device.\<close>

definition trap_e100 ::
  "trap_numbers \<Rightarrow> kern_config \<Rightarrow> trap_env \<Rightarrow> trapframe \<Rightarrow> call list" where
  "trap_e100 n cfg env tf =
     (let e100_irq_gate = trapnum n T_IRQ0 + unat (e100_irq env)
      in if unat (trapno tf) = e100_irq_gate
         then E100_intr # Lapic_eoi # do_call env Trap_return (trap_reflect cfg env tf)
         else trap_reflect cfg env tf)"

text \<open>
  The \<open>switch\<close> of lines 203 to 228. Only the system-call case ends in \<open>break\<close>;
  each of the other cases runs into the next one if its \<open>trap_return\<close> comes back.
\<close>

definition case_spurious :: "trap_env \<Rightarrow> call list \<Rightarrow> call list" where
  "case_spurious env rest = Cprintf_spurious # do_call env Trap_return rest"

definition case_serial :: "trap_env \<Rightarrow> call list \<Rightarrow> call list" where
  "case_serial env rest =
     Lapic_eoi # Serial_intr # do_call env Trap_return (case_spurious env rest)"

definition case_kbd :: "trap_env \<Rightarrow> call list \<Rightarrow> call list" where
  "case_kbd env rest =
     Kbd_intr # Lapic_eoi # do_call env Trap_return (case_serial env rest)"

definition case_ltimer :: "trap_env \<Rightarrow> trapframe \<Rightarrow> call list \<Rightarrow> call list" where
  "case_ltimer env tf rest =
     Net_tick # Lapic_eoi #
       (if user_mode tf
        then do_call env Proc_yield (do_call env Trap_return (case_kbd env rest))
        else do_call env Trap_return (case_kbd env rest))"

definition trap_switch ::
  "trap_numbers \<Rightarrow> kern_config \<Rightarrow> trap_env \<Rightarrow> trapframe \<Rightarrow> call list" where
  "trap_switch n cfg env tf =
     (let rest = trap_e100 n cfg env tf;
          t = unat (trapno tf)
      in if t = trapnum n T_SYSCALL then do_call env Syscall rest
         else if t = trapnum n T_LTIMER then case_ltimer env tf rest
         else if t = trapnum n T_IRQ0 + irqnum n IRQ_KBD then case_kbd env rest
         else if t = trapnum n T_IRQ0 + irqnum n IRQ_SERIAL then case_serial env rest
         else if t = trapnum n T_IRQ0 + irqnum n IRQ_SPURIOUS then case_spurious env rest
         else rest)"

text \<open>
  \<open>trap\<close>, lines 177 to 255. (The \<open>cld\<close> instruction at its head clears a
  processor flag and calls nothing.)
\<close>

definition trap :: "trap_numbers \<Rightarrow> kern_config \<Rightarrow> trap_env \<Rightarrow> trapframe \<Rightarrow> call list" where
  "trap n cfg env tf =
     (let dispatch =
            (if recover env then do_call env Recover (trap_switch n cfg env tf)
             else trap_switch n cfg env tf)
      in if unat (trapno tf) = trapnum n T_PGFLT then do_call env Pmap_pagefault dispatch
         else dispatch)"

subsection \<open>A machine to evaluate on\<close>

text \<open>
  The numbering of the PC: the processor's exception numbers (the order of the table
  in \<open>trap_name\<close>, lines 116 to 137), the interrupts from 32 on, keyboard, serial
  line and spurious interrupt on lines 1, 4 and 7 (the comments of lines 75 to 79),
  and PIOS's two software vectors after the sixteen interrupts.
\<close>

fun pc_trapnum :: "trap_name \<Rightarrow> nat" where
  "pc_trapnum T_DIVIDE = 0"
| "pc_trapnum T_DEBUG = 1"
| "pc_trapnum T_NMI = 2"
| "pc_trapnum T_BRKPT = 3"
| "pc_trapnum T_OFLOW = 4"
| "pc_trapnum T_BOUND = 5"
| "pc_trapnum T_ILLOP = 6"
| "pc_trapnum T_DEVICE = 7"
| "pc_trapnum T_DBLFLT = 8"
| "pc_trapnum T_TSS = 10"
| "pc_trapnum T_SEGNP = 11"
| "pc_trapnum T_STACK = 12"
| "pc_trapnum T_GPFLT = 13"
| "pc_trapnum T_PGFLT = 14"
| "pc_trapnum T_FPERR = 16"
| "pc_trapnum T_ALIGN = 17"
| "pc_trapnum T_MCHK = 18"
| "pc_trapnum T_SIMD = 19"
| "pc_trapnum T_SECEV = 30"
| "pc_trapnum T_IRQ0 = 32"
| "pc_trapnum T_SYSCALL = 48"
| "pc_trapnum T_LTIMER = 49"

fun pc_irqnum :: "irq_name \<Rightarrow> nat" where
  "pc_irqnum IRQ_KBD = 1"
| "pc_irqnum IRQ_SERIAL = 4"
| "pc_irqnum IRQ_SPURIOUS = 7"

definition pc_numbers :: trap_numbers where
  "pc_numbers = \<lparr>trapnum = pc_trapnum, irqnum = pc_irqnum\<rparr>"

text \<open>
  A PC configuration: 640K of base memory, the kernel image from 1MB to \<open>0x120000\<close>,
  descriptors of 24 bytes, a remote reference with the node in its low byte and the
  page address in its high twenty bits.
\<close>

definition pc_config :: kern_config where
  "pc_config =
     \<lparr>nvram_baselo = 640, MEM_EXT = 0x100000, sym_start = 0x100000, sym_end = 0x120000,
      pmap_zero = 0x110000, sizeof_pageinfo = 24, NET_MAXNODES = 32,
      RRNODE = (\<lambda>rr. rr AND 0xFF), RRADDR = (\<lambda>rr. rr AND NOT 0xFFF)\<rparr>"

text \<open>
  A store of the PC configuration in which descriptor 301 caches the page \<open>0x5000\<close>
  of node 2: it is the only entry of bucket 5, with one reference. No page is free.
\<close>

definition st_tracked :: mem_state where
  "st_tracked =
     \<lparr>mem_max = 0x40000000, mem_npage = 262144,
      mem_pageinfo = (\<lambda>_. zero_pageinfo)
        (301 := zero_pageinfo\<lparr>home := 0x5002, refcount := 1\<rparr>,
         5 := zero_pageinfo\<lparr>homelist := Some 301\<rparr>),
      mem_freelist = None\<rparr>"


text \<open>
  Two processors to run \<open>trap\<close> on, one with a recovery hook installed and one
  without. The current process has its home on node 2, this is node 1, and none of
  the functions that may keep control gives it back.
\<close>

definition env_hook :: trap_env where
  "env_hook = \<lparr>recover = True, curr_home = 0x1002, net_node = 1, e100_irq = 11,
               cons_lock_holding = False, returns = (\<lambda>_. False)\<rparr>"

definition env_plain :: trap_env where
  "env_plain = \<lparr>recover = False, curr_home = 0x1002, net_node = 1, e100_irq = 11,
                cons_lock_holding = False, returns = (\<lambda>_. False)\<rparr>"

subsection \<open>Recognized vectors\<close>

text \<open>
  The trap number is none of the vectors that the \<open>switch\<close> and the test of line
  230 recognise: system call, timer, keyboard, serial line, spurious interrupt, and
  the interrupt of the network device.
\<close>

definition unrecognized :: "trap_numbers \<Rightarrow> trap_env \<Rightarrow> trapframe \<Rightarrow> bool" where
  "unrecognized n env tf =
     (unat (trapno tf) \<notin>
        {trapnum n T_SYSCALL, trapnum n T_LTIMER, trapnum n T_IRQ0 + irqnum n IRQ_KBD,
         trapnum n T_IRQ0 + irqnum n IRQ_SERIAL, trapnum n T_IRQ0 + irqnum n IRQ_SPURIOUS,
         trapnum n T_IRQ0 + unat (e100_irq env)})"

section \<open>Properties of the allocator\<close>

text \<open>
  The array has \<open>2 ^ 18\<close> descriptors. The simplifier is kept from writing out the
  list of their indices.
\<close>

declare upt_rec_numeral [simp del]


text \<open>
  C1. With an empty free list \<open>mem_alloc\<close> should return \<open>NULL\<close> and leave the store
  as it is. The code does not get as far as its \<open>return\<close>: with \<open>p == NULL\<close> it
  executes \<open>p->home = 0\<close>, a store through the null pointer. The theorem evaluates
  the code on such a state.
\<close>

theorem mem_alloc_empty_null_store:
  "mem_alloc (s\<lparr>mem_freelist := None\<rparr>) = Inl NullDeref"
  by (simp add: mem_alloc_def)

text \<open>
  C4, as the claim states it: \<open>mem_alloc\<close> leaves every field of every descriptor
  other than the free-list linkage unchanged. It fails on the home (and the
  \<open>shared\<close> flag) of the descriptor it returns, which lines 106 and 107 clear.
  Here descriptor 301, with home \<open>0x5002\<close>, has been put on the free list by
  \<open>mem_free\<close>, which leaves the home in place; \<open>mem_alloc\<close> returns it with home 0.
\<close>

theorem mem_alloc_clears_home:
  "mem_free (Some 301) st_tracked = Inr (freed 301 None st_tracked) \<and>
   mem_freelist (freed 301 None st_tracked) = Some 301 \<and>
   home (mem_pageinfo (freed 301 None st_tracked) 301) = 0x5002 \<and>
   map_sum id (\<lambda>(s', p). (p, home (mem_pageinfo s' 301)))
     (mem_alloc (freed 301 None st_tracked)) = Inr (Some 301, 0)"
  by (simp add: mem_free_def mem_alloc_def freed_def pi_store_def st_tracked_def
        zero_pageinfo_def Let_def)

text \<open>
  C4, amended. On a non-empty free list \<open>mem_alloc\<close> returns the head, makes the
  head's successor the new head, and sets the home of the returned descriptor to 0 and
  its \<open>shared\<close> flag to false. It changes nothing else: no reference count, no
  \<open>free_next\<close>, \<open>homelist\<close> or \<open>homenext\<close> link, no other descriptor, and not
  the size of the array. (Page contents are not part of the store; the function has no
  statement that writes a page.)
\<close>

theorem mem_alloc_frame:
  assumes "mem_freelist s = Some i"
  shows "\<exists>s'. mem_alloc s = Inr (s', Some i) \<and>
               mem_freelist s' = free_next (mem_pageinfo s i) \<and>
               mem_pageinfo s' =
                 (mem_pageinfo s)(i := (mem_pageinfo s i)\<lparr>home := 0, shared := False\<rparr>) \<and>
               refcount (mem_pageinfo s' j) = refcount (mem_pageinfo s j) \<and>
               free_next (mem_pageinfo s' j) = free_next (mem_pageinfo s j) \<and>
               homelist (mem_pageinfo s' j) = homelist (mem_pageinfo s j) \<and>
               homenext (mem_pageinfo s' j) = homenext (mem_pageinfo s j) \<and>
               mem_npage s' = mem_npage s \<and> mem_max s' = mem_max s"
  using assms by (simp add: mem_alloc_def pi_store_def Let_def)

theorem mem_alloc_frame_witness:
  "mem_freelist (freed 301 None st_tracked) = Some 301 \<and>
   (\<exists>s'. mem_alloc (freed 301 None st_tracked) = Inr (s', Some 301) \<and>
          mem_freelist s' = None \<and>
          refcount (mem_pageinfo s' 301) = 1 \<and>
          homelist (mem_pageinfo s' 5) = Some 301)"
proof -
  have h: "mem_freelist (freed 301 None st_tracked) = Some 301"
    by (simp add: freed_def)
  have f: "free_next (mem_pageinfo (freed 301 None st_tracked) 301) = None"
    by (simp add: freed_def pi_store_def)
  have r: "refcount (mem_pageinfo (freed 301 None st_tracked) 301) = 1"
    by (simp add: freed_def pi_store_def st_tracked_def)
  have l: "homelist (mem_pageinfo (freed 301 None st_tracked) 5) = Some 301"
    by (simp add: freed_def pi_store_def st_tracked_def)
  from mem_alloc_frame [OF h, of 301] mem_alloc_frame [OF h, of 5] h f r l
  show ?thesis by auto
qed

section \<open>Properties of the remote-reference tracker\<close>

lemma rrtrack_scan_chain:
  "chain (\<lambda>i. homenext (mem_pageinfo s i)) p xs \<Longrightarrow>
   list_all (\<lambda>x. RRADDR cfg (home (mem_pageinfo s x)) = addr \<and>
                  home (mem_pageinfo s x) \<noteq> rr) xs \<Longrightarrow>
   rrtrack_scan cfg s rr addr p = Some (Inr ())"
proof (induction xs arbitrary: p)
  case Nil
  then show ?case by (simp add: rrtrack_scan.simps)
next
  case (Cons x xs)
  then show ?case by (subst rrtrack_scan.simps) simp
qed


lemma rrlookup_scan_hit:
  "RRADDR cfg (home (mem_pageinfo s i)) = addr \<Longrightarrow> home (mem_pageinfo s i) = rr \<Longrightarrow>
   rrlookup_scan cfg rr addr s (Some i) = Some (Inr (mem_incref i s, Some i))"
  by (subst rrlookup_scan.simps) simp

lemma st_tracked_bucket:
  "rr_node_ok pc_config 0x5001"
  "pi_in_array st_tracked (mem_phys2pi (unat (RRADDR pc_config 0x5001)))"
  "bucket_without pc_config st_tracked 0x5001 [301]"
  "pi_trackable pc_config st_tracked (Some 300)"
  by (simp_all add: rr_node_ok_def pi_in_array_def pi_trackable_def mem_phys2pi_def
        bucket_without_def bucket_of_def ptr_less_def pc_config_def st_tracked_def PAGESIZE_def
        zero_pageinfo_def)

text \<open>
  C2. Let \<open>rr\<close> be a remote reference with a valid node number whose bucket lies in
  the array, \<open>p\<close> a descriptor that may be tracked, and let the bucket of \<open>rr\<close> be a
  well-formed list in which no entry has \<open>rr\<close> as its home (\<open>rr\<close> is not tracked
  yet). Then \<open>mem_rrtrack\<close> returns, \<open>mem_rrlookup\<close> of \<open>rr\<close> in the store it
  leaves returns \<open>p\<close>, and the reference count of \<open>p\<close> after the lookup is one
  more than before it; \<open>mem_rrtrack\<close> itself does not change the count.
\<close>

theorem rrtrack_rrlookup:
  assumes tr: "pi_trackable cfg s (Some p)"
      and node: "rr_node_ok cfg rr"
      and rng: "pi_in_array s (mem_phys2pi (unat (RRADDR cfg rr)))"
      and bk: "bucket_without cfg s rr xs"
  shows "\<exists>s' s''. mem_rrtrack cfg rr (Some p) s = Some (Inr s') \<and>
                   mem_rrlookup cfg rr s' = Some (Inr (s'', Some p)) \<and>
                   refcount (mem_pageinfo s'' p) = refcount (mem_pageinfo s' p) + 1 \<and>
                   refcount (mem_pageinfo s' p) = refcount (mem_pageinfo s p)"
proof -
  let ?b = "bucket_of cfg rr"
  define s1 where "s1 = pi_store p (\<lambda>d. d\<lparr>home := rr\<rparr>) s"
  define s2 where "s2 = pi_store p (\<lambda>d. d\<lparr>homenext := homelist (mem_pageinfo s1 ?b)\<rparr>) s1"
  define s3 where "s3 = pi_store ?b (\<lambda>d. d\<lparr>homelist := Some p\<rparr>) s2"
  from bk have sc: "rrtrack_scan cfg s rr (RRADDR cfg rr) (homelist (mem_pageinfo s ?b))
                      = Some (Inr ())"
    unfolding bucket_without_def by (blast intro: rrtrack_scan_chain)
  have t: "mem_rrtrack cfg rr (Some p) s = Some (Inr s3)"
    using tr node rng sc
    by (simp add: mem_rrtrack_def mem_phys2pi_def Let_def s1_def s2_def s3_def bucket_of_def)
  have n3: "mem_npage s3 = mem_npage s"
    by (simp add: s3_def s2_def s1_def pi_store_def)
  have hl: "homelist (mem_pageinfo s3 ?b) = Some p"
    by (simp add: s3_def pi_store_def)
  have hm: "home (mem_pageinfo s3 p) = rr"
    by (simp add: s3_def s2_def s1_def pi_store_def)
  have l: "mem_rrlookup cfg rr s3 = Some (Inr (mem_incref p s3, Some p))"
    using node rng hl hm rrlookup_scan_hit [of cfg s3 p "RRADDR cfg rr" rr]
    by (simp add: mem_rrlookup_def mem_phys2pi_def Let_def pi_in_array_def n3 bucket_of_def)
  have r1: "refcount (mem_pageinfo (mem_incref p s3) p) = refcount (mem_pageinfo s3 p) + 1"
    by (simp add: mem_incref_def pi_store_def)
  have r2: "refcount (mem_pageinfo s3 p) = refcount (mem_pageinfo s p)"
    by (simp add: s3_def s2_def s1_def pi_store_def)
  from t l r1 r2 show ?thesis by blast
qed

theorem rrtrack_rrlookup_witness:
  "pi_trackable pc_config st_tracked (Some 300) \<and>
   rr_node_ok pc_config 0x5001 \<and>
   pi_in_array st_tracked (mem_phys2pi (unat (RRADDR pc_config 0x5001))) \<and>
   bucket_without pc_config st_tracked 0x5001 [301] \<and>
   (\<exists>s' s''. mem_rrtrack pc_config 0x5001 (Some 300) st_tracked = Some (Inr s') \<and>
              mem_rrlookup pc_config 0x5001 s' = Some (Inr (s'', Some 300)) \<and>
              refcount (mem_pageinfo s'' 300) = 1)"
proof -
  have "refcount (mem_pageinfo st_tracked 300) = 0"
    by (simp add: st_tracked_def zero_pageinfo_def)
  with rrtrack_rrlookup [OF st_tracked_bucket(4) st_tracked_bucket(1) st_tracked_bucket(2)
         st_tracked_bucket(3)] st_tracked_bucket
  show ?thesis by auto
qed



subsection \<open>Freeing a tracked page\<close>

lemma freed_fields [simp]:
  "home (mem_pageinfo (freed d fl s) i) = home (mem_pageinfo s i)"
  "homenext (mem_pageinfo (freed d fl s) i) = homenext (mem_pageinfo s i)"
  "homelist (mem_pageinfo (freed d fl s) i) = homelist (mem_pageinfo s i)"
  "refcount (mem_pageinfo (freed d fl s) i) = refcount (mem_pageinfo s i)"
  "shared (mem_pageinfo (freed d fl s) i) = shared (mem_pageinfo s i)"
  "mem_npage (freed d fl s) = mem_npage s"
  "mem_max (freed d fl s) = mem_max s"
  "mem_freelist (freed d fl s) = Some d"
  by (simp_all add: freed_def pi_store_def)

lemma mem_free_freed: "mem_free (Some d) s = Inr (freed d (mem_freelist s) s)"
  by (simp add: mem_free_def freed_def)

lemma mem_incref_freed: "mem_incref i (freed d fl s) = freed d fl (mem_incref i s)"
  by (auto simp: mem_incref_def freed_def pi_store_def fun_eq_iff)

lemma rrlookup_scan_freed:
  "rrlookup_scan cfg rr addr s p = Some y \<Longrightarrow>
   rrlookup_scan cfg rr addr (freed d fl s) p =
     Some (map_sum id (\<lambda>(t, q). (freed d fl t, q)) y)"
proof (induction rule: rrlookup_scan.raw_induct [rotated 1, consumes 1, case_names step])
  case (step scan cfg rr addr s p y)
  show ?case
  proof (cases p)
    case None
    with step(2) show ?thesis by (auto simp: rrlookup_scan.simps)
  next
    case (Some i)
    with step show ?thesis
      by (subst rrlookup_scan.simps) (auto simp: mem_incref_freed id_def split: if_splits)
  qed
qed

lemma rrlookup_scan_state:
  "rrlookup_scan cfg rr addr s p = Some (Inr (s1, q)) \<Longrightarrow> mem_freelist s1 = mem_freelist s"
proof (induction cfg rr addr s p "Inr (s1, q) :: error + mem_state \<times> pageinfo_ptr"
         rule: rrlookup_scan.raw_induct [rotated 1, consumes 1, case_names step])
  case (step scan cfg rr addr s p)
  then show ?case
    by (auto simp: mem_incref_def pi_store_def split: option.splits if_splits)
qed

lemma mem_rrlookup_freed:
  assumes "mem_rrlookup cfg rr s = Some (Inr (s1, q))"
  shows "mem_rrlookup cfg rr (freed d fl s) = Some (Inr (freed d fl s1, q))"
    and "mem_freelist s1 = mem_freelist s"
  using assms rrlookup_scan_freed [of cfg rr "RRADDR cfg rr" s _ "Inr (s1, q)" d fl]
    rrlookup_scan_state [of cfg rr "RRADDR cfg rr" s _ s1 q]
  by (auto simp: mem_rrlookup_def Let_def pi_in_array_def mem_phys2pi_def split: if_splits)

text \<open>
  C10. \<open>mem_free\<close> of a descriptor \<open>d\<close> writes the \<open>free_next\<close> of \<open>d\<close> and the
  head of the free list, and nothing else: the reference count, the home and the bucket
  links of every descriptor stay as they are. So a lookup that returned \<open>d\<close> before
  the call returns it after the call as well, with the same effect on the store: a page
  freed while its home is tracked is still found by \<open>mem_rrlookup\<close>.
\<close>

theorem mem_free_frame:
  "\<exists>s'. mem_free (Some d) s = Inr s' \<and>
         mem_freelist s' = Some d \<and>
         mem_pageinfo s' =
           (mem_pageinfo s)(d := (mem_pageinfo s d)\<lparr>free_next := mem_freelist s\<rparr>) \<and>
         mem_npage s' = mem_npage s \<and> mem_max s' = mem_max s \<and>
         (\<forall>rr s1. mem_rrlookup cfg rr s = Some (Inr (s1, Some d)) \<longrightarrow>
            (\<exists>s1'. mem_free (Some d) s1 = Inr s1' \<and>
                    mem_rrlookup cfg rr s' = Some (Inr (s1', Some d))))"
proof -
  let ?s' = "freed d (mem_freelist s) s"
  have pi: "mem_pageinfo ?s' =
              (mem_pageinfo s)(d := (mem_pageinfo s d)\<lparr>free_next := mem_freelist s\<rparr>)"
    by (simp add: freed_def pi_store_def)
  have lk: "\<exists>s1'. mem_free (Some d) s1 = Inr s1' \<and>
                  mem_rrlookup cfg rr ?s' = Some (Inr (s1', Some d))"
    if "mem_rrlookup cfg rr s = Some (Inr (s1, Some d))" for rr s1
    using mem_rrlookup_freed(1) [OF that, where d = d and fl = "mem_freelist s"]
      mem_rrlookup_freed(2) [OF that]
    by (simp add: mem_free_freed)
  from pi lk show ?thesis
    by (intro exI [of _ ?s']) (simp add: mem_free_freed)
qed

theorem mem_free_frame_witness:
  "mem_rrlookup pc_config 0x5002 st_tracked = Some (Inr (mem_incref 301 st_tracked, Some 301)) \<and>
   (\<exists>s' s1'. mem_free (Some 301) st_tracked = Inr s' \<and>
              mem_freelist s' = Some 301 \<and>
              mem_rrlookup pc_config 0x5002 s' = Some (Inr (s1', Some 301)))"
proof -
  have l: "mem_rrlookup pc_config 0x5002 st_tracked
             = Some (Inr (mem_incref 301 st_tracked, Some 301))"
    by (simp add: mem_rrlookup_def rr_node_ok_def pi_in_array_def mem_phys2pi_def ptr_less_def
          pc_config_def st_tracked_def PAGESIZE_def zero_pageinfo_def rrlookup_scan.simps)
  from mem_free_frame [of 301 st_tracked pc_config] l show ?thesis by blast
qed

section \<open>Properties of initialisation\<close>

subsection \<open>Threading the free list\<close>



lemma pi_store_simps [simp]:
  "mem_npage (pi_store i f s) = mem_npage s"
  "mem_max (pi_store i f s) = mem_max s"
  "mem_freelist (pi_store i f s) = mem_freelist s"
  "mem_pageinfo (pi_store i f s) k = (if k = i then f (mem_pageinfo s i) else mem_pageinfo s k)"
  by (simp_all add: pi_store_def)

lemma tail_store_simps [simp]:
  "mem_npage (tail_store ft v s) = mem_npage s"
  "mem_max (tail_store ft v s) = mem_max s"
  "tail_deref (tail_store ft v s) ft = v"
  "ft \<noteq> Freelist_head \<Longrightarrow> mem_freelist (tail_store ft v s) = mem_freelist s"
  "ft \<noteq> Free_next_of k \<Longrightarrow> mem_pageinfo (tail_store ft v s) k = mem_pageinfo s k"
  "(mem_pageinfo (tail_store ft v s) k)\<lparr>free_next := w\<rparr> = (mem_pageinfo s k)\<lparr>free_next := w\<rparr>"
  by (auto simp: tail_store_def tail_deref_def split: tailref.splits)





subsection \<open>The layout\<close>














subsection \<open>Reachable stores\<close>













section \<open>The buckets of the stores that tracking leads to\<close>

text \<open>
  The hypothesis of C2 and C8 on the bucket of a reference holds in every store that
  tracking leads to, for every reference that has not been tracked.
\<close>

lemma chain_cong: "(\<And>x. x \<in> set xs \<Longrightarrow> nxt' x = nxt x) \<Longrightarrow> chain nxt' q xs = chain nxt q xs"
  by (induction xs arbitrary: q) auto

lemma mem_rrtrack_result:
  assumes "mem_rrtrack cfg r (Some p) s = Some (Inr s')"
  shows "s' = pi_store (bucket_of cfg r) (\<lambda>d. d\<lparr>homelist := Some p\<rparr>)
                (pi_store p (\<lambda>d. d\<lparr>homenext := homelist (mem_pageinfo s (bucket_of cfg r))\<rparr>)
                   (pi_store p (\<lambda>d. d\<lparr>home := r\<rparr>) s))"
    and "bucket_of cfg r < mem_npage s"
  using assms
  by (auto simp: mem_rrtrack_def Let_def mem_phys2pi_def bucket_of_def pi_in_array_def ptr_less_def
        pi_store_def fun_eq_iff
      split: if_splits option.splits sum.splits)

lemma tracker_inv_track:
  assumes inv: "tracker_inv cfg T P s" and fresh: "p \<notin> P"
      and tr: "mem_rrtrack cfg r (Some p) s = Some (Inr s')"
  shows "tracker_inv cfg (insert r T) (insert p P) s'"
proof -
  let ?h = "bucket_of cfg r"
  note s' = mem_rrtrack_result(1) [OF tr] and h = mem_rrtrack_result(2) [OF tr]
  have n: "mem_npage s' = mem_npage s" by (simp add: s' pi_store_def)
  have hn: "homenext (mem_pageinfo s' x) = homenext (mem_pageinfo s x)" if "x \<noteq> p" for x
    using that by (simp add: s' pi_store_def)
  have hm: "home (mem_pageinfo s' x) = home (mem_pageinfo s x)" if "x \<noteq> p" for x
    using that by (simp add: s' pi_store_def)
  have hl: "homelist (mem_pageinfo s' b) = homelist (mem_pageinfo s b)" if "b \<noteq> ?h" for b
    using that by (simp add: s' pi_store_def)
  have hp: "home (mem_pageinfo s' p) = r" "homelist (mem_pageinfo s' ?h) = Some p"
    "homenext (mem_pageinfo s' p) = homelist (mem_pageinfo s ?h)"
    by (simp_all add: s' pi_store_def)
  show ?thesis unfolding tracker_inv_def n
  proof (intro allI impI)
    fix b assume b: "b < mem_npage s"
    with inv obtain xs where xs: "bucket_list s b xs" "set xs \<subseteq> P"
      "\<forall>x \<in> set xs. home (mem_pageinfo s x) \<in> T \<and> bucket_of cfg (home (mem_pageinfo s x)) = b"
      unfolding tracker_inv_def by blast
    from xs(2) fresh have pn: "p \<notin> set xs" by auto
    have ch: "chain (\<lambda>i. homenext (mem_pageinfo s' i)) q xs = chain (\<lambda>i. homenext (mem_pageinfo s i)) q xs"
      for q using pn by (intro chain_cong hn) auto
    have homes: "\<forall>x \<in> set xs. home (mem_pageinfo s' x) \<in> insert r T \<and>
                  bucket_of cfg (home (mem_pageinfo s' x)) = b"
    proof
      fix x assume x: "x \<in> set xs"
      with pn have "x \<noteq> p" by auto
      from hm [OF this] xs(3) x show "home (mem_pageinfo s' x) \<in> insert r T \<and>
                  bucket_of cfg (home (mem_pageinfo s' x)) = b" by simp
    qed
    show "\<exists>xs. bucket_list s' b xs \<and> set xs \<subseteq> insert p P \<and>
            (\<forall>x \<in> set xs. home (mem_pageinfo s' x) \<in> insert r T \<and>
                bucket_of cfg (home (mem_pageinfo s' x)) = b)"
    proof (cases "b = ?h")
      case True
      have "bucket_list s' b (p # xs)"
        using xs(1) by (simp add: bucket_list_def True hp ch)
      with homes xs(2) True hp(1) show ?thesis
        by (intro exI [of _ "p # xs"]) auto
    next
      case False
      have "bucket_list s' b xs" using xs(1) by (simp add: bucket_list_def hl [OF False] ch)
      with homes xs(2) show ?thesis by (intro exI [of _ xs]) auto
    qed
  qed
qed

lemma rrlookup_scan_result:
  "rrlookup_scan cfg rr addr s p = Some (Inr (s1, q)) \<Longrightarrow>
   s1 = s \<or> (\<exists>i. s1 = mem_incref i s)"
proof (induction cfg rr addr s p "Inr (s1, q) :: error + mem_state \<times> pageinfo_ptr"
         rule: rrlookup_scan.raw_induct [rotated 1, consumes 1, case_names step])
  case (step scan cfg rr addr s p)
  then show ?case by (auto split: option.splits if_splits)
qed

lemma mem_incref_fields:
  "homenext (mem_pageinfo (mem_incref i s) x) = homenext (mem_pageinfo s x)"
  "homelist (mem_pageinfo (mem_incref i s) x) = homelist (mem_pageinfo s x)"
  "home (mem_pageinfo (mem_incref i s) x) = home (mem_pageinfo s x)"
  "mem_npage (mem_incref i s) = mem_npage s"
  by (simp_all add: mem_incref_def pi_store_def)

lemma tracker_inv_incref: "tracker_inv cfg T P (mem_incref i s) = tracker_inv cfg T P s"
  by (simp add: tracker_inv_def bucket_list_def mem_incref_fields)

lemma tracker_inv_lookup:
  assumes inv: "tracker_inv cfg T P s" and l: "mem_rrlookup cfg r s = Some (Inr (s', q))"
  shows "tracker_inv cfg T P s'"
proof -
  from l have "s' = s \<or> (\<exists>i. s' = mem_incref i s)"
    by (auto simp: mem_rrlookup_def Let_def split: if_splits option.splits dest: rrlookup_scan_result)
  then show ?thesis using inv by (auto simp: tracker_inv_incref)
qed

lemma tracked_from_inv: "tracked_from cfg T P s \<Longrightarrow> tracker_inv cfg T P s"
proof (induction rule: tracked_from.induct)
  case (empty s)
  then show ?case by (auto simp: tracker_inv_def bucket_list_def intro: exI [of _ "[]"])
next
  case (track T P s p r s')
  then show ?case by (blast intro: tracker_inv_track)
next
  case (lookup T P s r s' q)
  then show ?case by (blast intro: tracker_inv_lookup)
qed

lemma aligned_addr:
  assumes "rraddr_aligned cfg" "bucket_of cfg a = bucket_of cfg b"
  shows "RRADDR cfg a = RRADDR cfg b"
proof -
  from assms have "unat (RRADDR cfg a) = unat (RRADDR cfg b)"
    unfolding rraddr_aligned_def bucket_of_def
    by (metis div_mult_mod_eq add.right_neutral)
  then show ?thesis by (simp add: word_unat_eq_iff)
qed

lemma untracked_bucket:
  assumes "tracked_from cfg T P s" "r \<notin> T" "rraddr_aligned cfg" "bucket_of cfg r < mem_npage s"
  shows "\<exists>xs. bucket_without cfg s r xs"
proof -
  from tracked_from_inv [OF assms(1)] assms(4)
  obtain xs where xs: "bucket_list s (bucket_of cfg r) xs"
    "\<forall>x \<in> set xs. home (mem_pageinfo s x) \<in> T \<and>
        bucket_of cfg (home (mem_pageinfo s x)) = bucket_of cfg r"
    unfolding tracker_inv_def by blast
  have "list_all (\<lambda>x. RRADDR cfg (home (mem_pageinfo s x)) = RRADDR cfg r \<and>
                       home (mem_pageinfo s x) \<noteq> r) xs"
    unfolding list_all_iff using xs(2) assms(2) aligned_addr [OF assms(3)] by blast
  with xs(1) show ?thesis unfolding bucket_without_def bucket_list_def by blast
qed

section \<open>Properties of the trap vector table\<close>

lemma fold_SETGATE:
  "distinct (map fst xs) \<Longrightarrow>
   fold (\<lambda>(i, off, dpl). SETGATE i False CPU_GDT_KCODE off dpl) xs idt i =
     (case map_of xs i of
        None \<Rightarrow> idt i
      | Some (off, dpl) \<Rightarrow>
          Some \<lparr>gd_off = off, gd_ss = CPU_GDT_KCODE, gd_istrap = False, gd_dpl = dpl\<rparr>)"
proof (induction xs arbitrary: idt)
  case Nil
  then show ?case by simp
next
  case (Cons x xs)
  obtain j off dpl where x: "x = (j, off, dpl)" by (cases x) auto
  from Cons.prems have d: "distinct (map fst xs)" and j: "j \<notin> fst ` set xs" by (auto simp: x)
  from j have mj: "map_of xs j = None" by (simp add: map_of_eq_None_iff)
  show ?case
    using Cons.IH [OF d, of "SETGATE j False CPU_GDT_KCODE off dpl idt"] mj
    by (auto simp: x SETGATE_def split: option.splits)
qed

lemma idt_gates_dpl:
  "(i, off, dpl) \<in> set (idt_gates n) \<Longrightarrow>
     dpl = 0 \<or> dpl = 3 \<and> i \<in> {trapnum n T_BRKPT, trapnum n T_OFLOW, trapnum n T_SYSCALL}"
  by (auto simp: idt_gates_def)

lemma idt_gates_user:
  "(trapnum n T_BRKPT, ''tbrkpt'', 3) \<in> set (idt_gates n)"
  "(trapnum n T_OFLOW, ''toflow'', 3) \<in> set (idt_gates n)"
  "(trapnum n T_SYSCALL, ''tsystem'', 3) \<in> set (idt_gates n)"
  by (simp_all add: idt_gates_def)

text \<open>
  C9. In the table that \<open>trap_init_idt\<close> builds, the populated entries are the
  vectors of its \<open>SETGATE\<close> statements; the entries of the breakpoint, overflow and
  system-call vectors have privilege level 3, and every other populated entry has
  privilege level 0. The vector numbers are pairwise distinct.
\<close>

theorem trap_init_idt_privilege:
  assumes d: "distinct (map fst (idt_gates n))"
  shows "map_option gd_dpl (trap_init_idt n idt0 i) =
           (if i \<in> fst ` set (idt_gates n)
            then Some (if i \<in> {trapnum n T_BRKPT, trapnum n T_OFLOW, trapnum n T_SYSCALL}
                       then 3 else 0)
            else None)"
proof (cases "map_of (idt_gates n) i")
  case None
  then have "i \<notin> fst ` set (idt_gates n)" by (simp add: map_of_eq_None_iff)
  with None show ?thesis
    by (simp add: trap_init_idt_def fold_SETGATE [OF d] idt0_def)
next
  case (Some v)
  obtain off dpl where v: "v = (off, dpl)" by (cases v) auto
  from Some have mem: "(i, off, dpl) \<in> set (idt_gates n)" unfolding v by (rule map_of_SomeD)
  then have dom: "i \<in> fst ` set (idt_gates n)" by force
  have gd: "map_option gd_dpl (trap_init_idt n idt0 i) = Some dpl"
    using Some by (simp add: trap_init_idt_def fold_SETGATE [OF d] v)
  show ?thesis
  proof (cases "i \<in> {trapnum n T_BRKPT, trapnum n T_OFLOW, trapnum n T_SYSCALL}")
    case True
    then obtain o3 where "(i, o3, 3) \<in> set (idt_gates n)"
      using idt_gates_user [of n] by auto
    with mem d have "(off, dpl) = (o3, 3)" by (metis eq_key_imp_eq_value)
    with True gd dom show ?thesis by simp
  next
    case False
    with idt_gates_dpl [OF mem] gd dom show ?thesis by auto
  qed
qed

theorem trap_init_idt_privilege_witness:
  "distinct (map fst (idt_gates pc_numbers)) \<and>
   map_option gd_dpl (trap_init_idt pc_numbers idt0 3) = Some 3 \<and>
   map_option gd_dpl (trap_init_idt pc_numbers idt0 4) = Some 3 \<and>
   map_option gd_dpl (trap_init_idt pc_numbers idt0 48) = Some 3 \<and>
   map_option gd_dpl (trap_init_idt pc_numbers idt0 14) = Some 0 \<and>
   map_option gd_dpl (trap_init_idt pc_numbers idt0 33) = Some 0 \<and>
   map_option gd_dpl (trap_init_idt pc_numbers idt0 49) = Some 0 \<and>
   map_option gd_dpl (trap_init_idt pc_numbers idt0 9) = None"
proof -
  have d: "distinct (map fst (idt_gates pc_numbers))"
    by (simp add: idt_gates_def pc_numbers_def)
  show ?thesis
    using d trap_init_idt_privilege [OF d, of 3] trap_init_idt_privilege [OF d, of 4]
      trap_init_idt_privilege [OF d, of 48] trap_init_idt_privilege [OF d, of 14]
      trap_init_idt_privilege [OF d, of 33] trap_init_idt_privilege [OF d, of 49]
      trap_init_idt_privilege [OF d, of 9]
    by (simp add: idt_gates_def pc_numbers_def)
qed

section \<open>Properties of the trap dispatcher\<close>

text \<open>
  C6, as the claim states it: with a recovery hook installed, the hook is invoked
  before any other handling. It fails for a page fault. \<open>trap\<close> offers a page fault
  to \<open>pmap_pagefault\<close> first (lines 189-190), and when that resolves the fault and
  resumes, the hook is not invoked at all.
\<close>

theorem trap_pagefault_before_recover:
  "recover env_hook \<and>
   trap pc_numbers pc_config env_hook \<lparr>trapno = 14, err = 0, eip = 0, cs = 8\<rparr>
     = [Pmap_pagefault]"
  by (simp add: trap_def pc_numbers_def env_hook_def do_call_def)

text \<open>
  C6, amended. With a recovery hook installed, the hook is the first function that
  \<open>trap\<close> calls for every trap other than a page fault: the dispatch on the trap
  number (\<open>trap_switch\<close>, which leads on to the device handlers, migration and the
  fatal end) comes after it, and only if the hook comes back. A page fault goes to
  \<open>pmap_pagefault\<close> first, and the hook is called right after it if it comes back.
\<close>

theorem trap_recover_first:
  assumes "recover env"
  shows "trap n cfg env tf =
           (if unat (trapno tf) = trapnum n T_PGFLT
            then Pmap_pagefault #
                   (if returns env Pmap_pagefault
                    then Recover # (if returns env Recover then trap_switch n cfg env tf else [])
                    else [])
            else Recover # (if returns env Recover then trap_switch n cfg env tf else []))"
  using assms by (simp add: trap_def do_call_def Let_def)

theorem trap_recover_first_witness:
  "recover env_hook \<and>
   trap pc_numbers pc_config env_hook \<lparr>trapno = 0, err = 0, eip = 0, cs = 8\<rparr> = [Recover]"
  using trap_recover_first
          [of env_hook pc_numbers pc_config "\<lparr>trapno = 0, err = 0, eip = 0, cs = 8\<rparr>"]
  by (simp add: trap_def pc_numbers_def env_hook_def do_call_def)

text \<open>
  C7, as the claim states it: every unrecognized trap from user mode is migrated or
  returned to the parent. It fails while a recovery hook is installed, as it is during
  the self-test from user mode (\<open>trap_check_user\<close>): a divide error from user mode,
  in a process whose home is node 2, on node 1, goes to the hook and to nothing else.
\<close>

theorem trap_user_hook_counterexample:
  "user_mode \<lparr>trapno = 0, err = 0, eip = 0, cs = 0x1B\<rparr> \<and>
   unrecognized pc_numbers env_hook \<lparr>trapno = 0, err = 0, eip = 0, cs = 0x1B\<rparr> \<and>
   unat (RRNODE pc_config (curr_home env_hook)) = 2 \<and> net_node env_hook = 1 \<and>
   trap pc_numbers pc_config env_hook \<lparr>trapno = 0, err = 0, eip = 0, cs = 0x1B\<rparr> = [Recover]"
  by (simp add: trap_def pc_numbers_def pc_config_def env_hook_def do_call_def user_mode_def
        unrecognized_def)

text \<open>
  C7, amended. On a processor with no recovery hook installed, a trap from user mode
  whose number is none of the recognized vectors, and which is not a page fault that
  \<open>pmap_pagefault\<close> resolved, is handled so: if the home node of the current process
  is not this node, \<open>trap\<close> calls \<open>net_migrate\<close> with the home node (and
  \<open>proc_ret\<close> after it, should it come back); otherwise it calls \<open>proc_ret\<close>.
  \<open>proc_ret\<close> hands control to the parent and does not come back, and \<open>panic\<close> is
  not reached.
\<close>

theorem trap_user_unrecognized:
  assumes "user_mode tf"
      and "unrecognized n env tf"
      and "unat (trapno tf) = trapnum n T_PGFLT \<Longrightarrow> returns env Pmap_pagefault"
      and "\<not> recover env"
      and "\<not> returns env Proc_ret"
  shows "trap n cfg env tf =
           (if unat (trapno tf) = trapnum n T_PGFLT then [Pmap_pagefault] else []) @
           (if unat (RRNODE cfg (curr_home env)) \<noteq> net_node env
            then Cprintf_wrong_node # Net_migrate (RRNODE cfg (curr_home env)) #
                   (if returns env (Net_migrate (RRNODE cfg (curr_home env)))
                    then [Proc_ret] else [])
            else [Proc_ret])
         \<and> Panic b \<notin> set (trap n cfg env tf)"
  using assms
  by (auto simp: trap_def trap_switch_def trap_e100_def trap_reflect_def do_call_def Let_def
        unrecognized_def)

theorem trap_user_unrecognized_witness:
  "user_mode \<lparr>trapno = 0, err = 0, eip = 0, cs = 0x1B\<rparr> \<and>
   unrecognized pc_numbers env_plain \<lparr>trapno = 0, err = 0, eip = 0, cs = 0x1B\<rparr> \<and>
   unat (trapno \<lparr>trapno = 0, err = 0, eip = 0, cs = 0x1B\<rparr>) \<noteq> trapnum pc_numbers T_PGFLT \<and>
   \<not> recover env_plain \<and> \<not> returns env_plain Proc_ret \<and>
   trap pc_numbers pc_config env_plain \<lparr>trapno = 0, err = 0, eip = 0, cs = 0x1B\<rparr>
     = [Cprintf_wrong_node, Net_migrate 2] \<and>
   Panic True \<notin> set (trap pc_numbers pc_config env_plain
                        \<lparr>trapno = 0, err = 0, eip = 0, cs = 0x1B\<rparr>)"
  using trap_user_unrecognized
          [of "\<lparr>trapno = 0, err = 0, eip = 0, cs = 0x1B\<rparr>" pc_numbers env_plain pc_config True]
  by (simp add: pc_numbers_def pc_config_def env_plain_def user_mode_def unrecognized_def)

end
